theory Spec2Isabelle
  imports Main
begin

section \<open>Values, errors and the outside world\<close>

text \<open>
  The embedding follows \<^verbatim>\<open>src/DapiMixin.ts\<close>. JavaScript values are modelled by the
  datatype below: numbers are integers plus \<open>NaN\<close>, an object is the map of its own
  enumerable properties (property order and object identity are not modelled), and
  a promise is named by a number. Functions are never values of this type: commands,
  decorators and hooks are named by identifiers (\<open>fid\<close>), which gives them the identity
  that \<^verbatim>\<open>indexOf\<close> compares, and an environment gives each identifier its behaviour.
\<close>

datatype jsval =
    Undefined
  | Null
  | JBool bool
  | JNum int
  | JNaN
  | JStr string
  | JArr "jsval list"
  | JObj "string \<Rightarrow> jsval option"
  | JPromise nat

text \<open>The values that \<^verbatim>\<open>!v\<close> treats as false.\<close>

fun falsy :: "jsval \<Rightarrow> bool" where
  "falsy Undefined = True"
| "falsy Null = True"
| "falsy (JBool b) = (\<not> b)"
| "falsy (JNum n) = (n = 0)"
| "falsy JNaN = True"
| "falsy (JStr s) = (s = [])"
| "falsy (JArr xs) = False"
| "falsy (JObj m) = False"
| "falsy (JPromise p) = False"

text \<open>The decimal name of an array or string index, as a property key.\<close>

fun index_key :: "nat \<Rightarrow> string" where
  "index_key n =
     (if n < 10 then [char_of (48 + n)]
      else index_key (n div 10) @ [char_of (48 + n mod 10)])"

text \<open>
  The own enumerable properties that an object spread \<^verbatim>\<open>{...v}\<close> copies: those of an
  object, the indices of an array or of a string, and none for any other value.
\<close>

fun own_props :: "jsval \<Rightarrow> (string \<Rightarrow> jsval option)" where
  "own_props (JObj m) = m"
| "own_props (JArr xs) = map_of (zip (map index_key [0..<length xs]) xs)"
| "own_props (JStr s) = map_of (zip (map index_key [0..<length s]) (map (\<lambda>c. JStr [c]) s))"
| "own_props v = Map.empty"


text \<open>
  An error is either a \<^verbatim>\<open>TypeError\<close> (message and \<^verbatim>\<open>cause\<close>) or any value that user
  code throws.
\<close>

datatype error = TypeError string jsval | Thrown jsval

type_synonym fid = nat

datatype phase = Pre | Post

text \<open>\<^verbatim>\<open>{pre: HookFn[], post: HookFn[]}\<close>\<close>

record hook_record =
  pre :: "fid list"
  post :: "fid list"

text \<open>
  A facade entry is one of the closures the class installs: the direct call
  (\<^verbatim>\<open>__makeFacade\<close>, \<^verbatim>\<open>unmakeDecorable\<close>) or the decorable call (\<^verbatim>\<open>__makeDecorable\<close>).
  Each closure captures its \<^verbatim>\<open>command\<close>; \<^verbatim>\<open>unmakeDecorable\<close> reads it from the function
  map without a guard, so there it may be \<^verbatim>\<open>undefined\<close> (\<open>None\<close>).
\<close>

datatype facade_fn = Direct "fid option" | Decorable fid

text \<open>\<^verbatim>\<open>DapiDefinition\<close>; a missing \<^verbatim>\<open>fns\<close> is \<open>None\<close>, a missing field of the others is \<open>Undefined\<close>.\<close>

record dapi_definition =
  dependencies :: jsval
  fns :: "(string \<times> fid) list option"
  type_tag :: jsval
  name_tag :: jsval

text \<open>
  The instance of \<^verbatim>\<open>DapiWrapper\<close>. The hook records live in a store (\<open>hookRecs\<close>, with the
  allocation counter \<open>nextRec\<close>) and \<open>hooks\<close> maps a key to the address of its record,
  because the closure that a pending result schedules keeps the \<^verbatim>\<open>post\<close> array itself and
  reads it when the result settles. \<open>members\<close> lists the names that resolve to a function
  through the prototype chain (the methods of the class, of \<^verbatim>\<open>SuperClass\<close> and of
  \<^verbatim>\<open>Object.prototype\<close>). The maps hold own properties only: the keys of the function map
  are taken to differ from the names of the fields and methods of the wrapper and of
  \<^verbatim>\<open>Object.prototype\<close>, and a list of entries stands for an object, so its keys are
  distinct where a property depends on it.
\<close>

record wrapper =
  defn :: dapi_definition
  deps :: jsval
  decoratedFns :: "string list"
  facade :: "string \<Rightarrow> facade_fn option"
  decorators :: "string \<Rightarrow> fid list option"
  hooks :: "string \<Rightarrow> nat option"
  hookRecs :: "nat \<Rightarrow> hook_record"
  nextRec :: nat
  members :: "string list"


text \<open>
  What a pending result leaves behind: \<^verbatim>\<open>result.then(() => { for (const postHook of
  postHooks) ... })\<close> keeps the promise, the \<^verbatim>\<open>post\<close> array of the hook record (by its
  address) and the arguments of the call.
\<close>

record reaction =
  on_promise :: nat
  post_ref :: nat
  hook_args :: "jsval list"

text \<open>
  The world outside the wrapper: the state \<open>ext\<close> that user functions read and write, the
  reactions registered on promises and not yet run (\<open>jobs\<close>), and the rejections of the
  promises that \<^verbatim>\<open>then\<close> derives, which nobody holds (\<open>unhandled\<close>).
\<close>

record 'x world =
  ext :: 'x
  jobs :: "reaction list"
  unhandled :: "error list"

text \<open>
  A command or a hook is called with a receiver (the wrapper), its arguments and the outside
  state; it returns or throws and leaves a new outside state. A callable is a function
  already bound to its receiver. A decorator is bound to the receiver and to the callable it
  wraps (\<^verbatim>\<open>decorator.bind(this, decoratedMethod)\<close>). User functions run to completion and
  do not call back into the registration methods of the wrapper while a call is in flight.
\<close>

type_synonym 'x user_fn = "wrapper \<Rightarrow> jsval list \<Rightarrow> 'x \<Rightarrow> (error + jsval) \<times> 'x"

type_synonym 'x callable = "jsval list \<Rightarrow> 'x world \<Rightarrow> (error + jsval) \<times> 'x world"

type_synonym 'x decorator_fn = "wrapper \<Rightarrow> 'x callable \<Rightarrow> 'x callable"

record 'x env =
  cmd :: "fid \<Rightarrow> 'x user_fn"
  dec :: "fid \<Rightarrow> 'x decorator_fn"
  hook :: "fid \<Rightarrow> 'x user_fn"

datatype settlement = Fulfilled jsval | Rejected error

section \<open>Construction\<close>

text \<open>The three checks at the head of \<^verbatim>\<open>DapiMixin\<close>.\<close>

definition DapiMixin :: "dapi_definition \<Rightarrow> error + unit" where
  "DapiMixin d =
     (if falsy (type_tag d) then
        Inl (TypeError ''Definition must have a type'' (JObj [''type'' \<mapsto> type_tag d]))
      else if fns d = None then
        Inl (TypeError ''Definition must have a dictionary (`fns`) of Dapi functions''
               (JObj [''fns'' \<mapsto> Undefined]))
      else if falsy (dependencies d) then
        Inl (TypeError ''Definition must have dependencies''
               (JObj [''dependencies'' \<mapsto> dependencies d]))
      else Inr ())"

text \<open>\<^verbatim>\<open>Object.entries(fns)\<close>\<close>

definition entries :: "dapi_definition \<Rightarrow> (string \<times> fid) list" where
  "entries d = (case fns d of None \<Rightarrow> [] | Some es \<Rightarrow> es)"

text \<open>\<^verbatim>\<open>__makeFacade\<close>: one direct-call closure per entry.\<close>

fun makeFacade_loop ::
  "(string \<times> fid) list \<Rightarrow> (string \<Rightarrow> facade_fn option) \<Rightarrow> (string \<Rightarrow> facade_fn option)" where
  "makeFacade_loop [] fa = fa"
| "makeFacade_loop ((key, command) # es) fa =
     makeFacade_loop es (fa(key \<mapsto> Direct (Some command)))"

definition makeFacade :: "(string \<times> fid) list \<Rightarrow> (string \<Rightarrow> facade_fn option)" where
  "makeFacade es = makeFacade_loop es Map.empty"

text \<open>The methods that the class body of \<^verbatim>\<open>DapiWrapper\<close> declares.\<close>

definition class_methods :: "string list" where
  "class_methods =
     [''constructor'', ''__makeFacade'', ''__makeDecorable'', ''unmakeDecorable'',
      ''getDependencies'', ''updateDependencies'', ''setDependencies'', ''getDefinition'',
      ''toJSON'', ''toString'', ''addDecorator'', ''decorateAll'', ''removeDecorator'',
      ''addHook'', ''removeHook'', ''addPreHook'', ''addPostHook'', ''removePreHook'',
      ''removePostHook'', ''__hookDecorator'']"

text \<open>
  The constructor. \<open>super_members\<close> are the function-valued names that \<^verbatim>\<open>SuperClass\<close> and
  \<^verbatim>\<open>Object.prototype\<close> contribute. The dependencies are copied (\<^verbatim>\<open>{...dependencies}\<close>).
\<close>

definition new_wrapper :: "dapi_definition \<Rightarrow> string list \<Rightarrow> wrapper" where
  "new_wrapper d super_members =
     \<lparr>defn = d,
      deps = JObj (own_props (dependencies d)),
      decoratedFns = [],
      facade = makeFacade (entries d),
      decorators = Map.empty,
      hooks = Map.empty,
      hookRecs = (\<lambda>a. \<lparr>pre = [], post = []\<rparr>),
      nextRec = 0,
      members = class_methods @ super_members\<rparr>"

text \<open>\<^verbatim>\<open>createDapi\<close>: \<^verbatim>\<open>new (DapiMixin(definition, SuperClass))()\<close>.\<close>

definition createDapi :: "dapi_definition \<Rightarrow> string list \<Rightarrow> error + wrapper" where
  "createDapi d super_members =
     (case DapiMixin d of Inl e \<Rightarrow> Inl e | Inr u \<Rightarrow> Inr (new_wrapper d super_members))"

section \<open>Calls through the facade\<close>

text \<open>\<^verbatim>\<open>this.__definition.fns[key]\<close>\<close>

definition lookup_fn :: "wrapper \<Rightarrow> string \<Rightarrow> fid option" where
  "lookup_fn w key = map_of (entries (defn w)) key"

text \<open>\<^verbatim>\<open>command.call(this, ...args)\<close>: the command runs on the outside state.\<close>

definition call_command :: "'x env \<Rightarrow> wrapper \<Rightarrow> fid \<Rightarrow> 'x callable" where
  "call_command E w c args wd =
     (case cmd E c w args (ext wd) of (r, x) \<Rightarrow> (r, wd\<lparr>ext := x\<rparr>))"

text \<open>
  A \<^verbatim>\<open>for ... of\<close> loop over hooks: each is called with the receiver and the arguments, its
  result is dropped, and the first one that throws ends the loop.
\<close>

fun run_hooks ::
  "'x env \<Rightarrow> wrapper \<Rightarrow> fid list \<Rightarrow> jsval list \<Rightarrow> 'x world \<Rightarrow> error option \<times> 'x world" where
  "run_hooks E w [] args wd = (None, wd)"
| "run_hooks E w (h # hs) args wd =
     (case hook E h w args (ext wd) of
        (Inl e, x) \<Rightarrow> (Some e, wd\<lparr>ext := x\<rparr>)
      | (Inr v, x) \<Rightarrow> run_hooks E w hs args (wd\<lparr>ext := x\<rparr>))"

text \<open>
  \<^verbatim>\<open>__hookDecorator\<close>: \<^verbatim>\<open>undefined\<close> when the key has no hook record, otherwise the decorator
  (\<open>hook_decorator_fn\<close>, for the record at address \<open>a\<close>) that runs the pre-hooks, the wrapped
  method, and then the post-hooks: at once when the result is not a \<^verbatim>\<open>Promise\<close>, as a
  reaction on the result when it is one.
\<close>

definition hook_decorator_fn :: "'x env \<Rightarrow> wrapper \<Rightarrow> nat \<Rightarrow> 'x callable \<Rightarrow> 'x callable" where
  "hook_decorator_fn E w a method args wd =
     (case run_hooks E w (pre (hookRecs w a)) args wd of
        (Some e, wd1) \<Rightarrow> (Inl e, wd1)
      | (None, wd1) \<Rightarrow>
          (case method args wd1 of
             (Inl e, wd2) \<Rightarrow> (Inl e, wd2)
           | (Inr result, wd2) \<Rightarrow>
               (case result of
                  JPromise p \<Rightarrow>
                    (Inr result,
                     wd2\<lparr>jobs := jobs wd2 @
                            [\<lparr>on_promise = p, post_ref = a, hook_args = args\<rparr>]\<rparr>)
                | _ \<Rightarrow>
                    (case run_hooks E w (post (hookRecs w a)) args wd2 of
                       (Some e, wd3) \<Rightarrow> (Inl e, wd3)
                     | (None, wd3) \<Rightarrow> (Inr result, wd3)))))"

definition hookDecorator ::
  "'x env \<Rightarrow> wrapper \<Rightarrow> string \<Rightarrow> ('x callable \<Rightarrow> 'x callable) option" where
  "hookDecorator E w key =
     (case hooks w key of
        None \<Rightarrow> None
      | Some a \<Rightarrow> Some (hook_decorator_fn E w a))"

text \<open>The closure that \<^verbatim>\<open>__makeFacade\<close> and \<^verbatim>\<open>unmakeDecorable\<close> install.\<close>

definition direct_call :: "'x env \<Rightarrow> wrapper \<Rightarrow> fid option \<Rightarrow> 'x callable" where
  "direct_call E w command params wd =
     (case command of
        None \<Rightarrow> (Inl (TypeError ''Cannot read properties of undefined'' Undefined), wd)
      | Some c \<Rightarrow> call_command E w c (deps w # params) wd)"

text \<open>
  The closure that \<^verbatim>\<open>__makeDecorable\<close> installs. The list is the hook decorator (if any)
  followed by the decorators of the key; with an empty list the command is called, otherwise
  \<^verbatim>\<open>reduce\<close> wraps the bound command in each element from left to right. Either way the
  callable so chosen is applied to \<^verbatim>\<open>[this.__deps, ...params]\<close>.
\<close>

definition decorated_method :: "'x env \<Rightarrow> wrapper \<Rightarrow> string \<Rightarrow> fid \<Rightarrow> 'x callable" where
  "decorated_method E w key command =
     (let decoratorFns = (case decorators w key of None \<Rightarrow> [] | Some ds \<Rightarrow> ds);
          bound = map (\<lambda>d. dec E d w) decoratorFns;
          chain = (case hookDecorator E w key of None \<Rightarrow> bound | Some h \<Rightarrow> h # bound)
      in if chain = [] then call_command E w command
         else foldl (\<lambda>decoratedMethod decorator. decorator decoratedMethod)
                (call_command E w command) chain)"

definition decorable_call :: "'x env \<Rightarrow> wrapper \<Rightarrow> string \<Rightarrow> fid \<Rightarrow> 'x callable" where
  "decorable_call E w key command params wd =
     decorated_method E w key command (deps w # params) wd"

text \<open>
  The method \<^verbatim>\<open>this[key]\<close> that the constructor installs: it looks the closure up in
  \<^verbatim>\<open>__facade\<close> at each call. A key without an entry is a call of \<^verbatim>\<open>undefined\<close>.
\<close>

definition invoke :: "'x env \<Rightarrow> wrapper \<Rightarrow> string \<Rightarrow> 'x callable" where
  "invoke E w key params wd =
     (case facade w key of
        None \<Rightarrow> (Inl (TypeError ''this.__facade[key] is not a function'' Undefined), wd)
      | Some (Direct command) \<Rightarrow> direct_call E w command params wd
      | Some (Decorable command) \<Rightarrow> decorable_call E w key command params wd)"

text \<open>
  The settlement of promise \<open>p\<close> reaches the reactions registered on it, in order. A
  fulfilment runs the post-hooks of the array each reaction kept, read now; an error thrown
  there rejects the promise that \<^verbatim>\<open>then\<close> derived. A rejection runs nothing and rejects the
  derived promise with the same reason.
\<close>

fun run_reactions ::
  "'x env \<Rightarrow> wrapper \<Rightarrow> settlement \<Rightarrow> reaction list \<Rightarrow> 'x world \<Rightarrow> 'x world" where
  "run_reactions E w s [] wd = wd"
| "run_reactions E w s (r # rs) wd =
     (case s of
        Fulfilled v \<Rightarrow>
          (case run_hooks E w (post (hookRecs w (post_ref r))) (hook_args r) wd of
             (Some e, wd1) \<Rightarrow> run_reactions E w s rs (wd1\<lparr>unhandled := unhandled wd1 @ [e]\<rparr>)
           | (None, wd1) \<Rightarrow> run_reactions E w s rs wd1)
      | Rejected e \<Rightarrow> run_reactions E w s rs (wd\<lparr>unhandled := unhandled wd @ [e]\<rparr>))"

definition settle :: "'x env \<Rightarrow> wrapper \<Rightarrow> nat \<Rightarrow> settlement \<Rightarrow> 'x world \<Rightarrow> 'x world" where
  "settle E w p s wd =
     run_reactions E w s (filter (\<lambda>r. on_promise r = p) (jobs wd))
       (wd\<lparr>jobs := filter (\<lambda>r. on_promise r \<noteq> p) (jobs wd)\<rparr>)"


section \<open>Decoration state of a key\<close>

text \<open>
  \<^verbatim>\<open>__makeDecorable\<close>: nothing for a key already decorated or absent from the function map;
  otherwise the decorable closure replaces the facade entry and the key is pushed.
\<close>

definition makeDecorable :: "string \<Rightarrow> wrapper \<Rightarrow> wrapper" where
  "makeDecorable key w =
     (if key \<in> set (decoratedFns w) then w
      else case lookup_fn w key of
             None \<Rightarrow> w
           | Some command \<Rightarrow>
               w\<lparr>facade := (facade w)(key \<mapsto> Decorable command),
                 decoratedFns := decoratedFns w @ [key]\<rparr>)"

text \<open>
  \<^verbatim>\<open>unmakeDecorable\<close>: nothing for a key that is not decorated or still has decorators or
  hooks; otherwise the direct closure replaces the facade entry and the key is spliced out
  at its first index.
\<close>

definition unmakeDecorable :: "string \<Rightarrow> wrapper \<Rightarrow> wrapper" where
  "unmakeDecorable key w =
     (if key \<notin> set (decoratedFns w) \<or> decorators w key \<noteq> None \<or> hooks w key \<noteq> None then w
      else w\<lparr>facade := (facade w)(key \<mapsto> Direct (lookup_fn w key)),
             decoratedFns := remove1 key (decoratedFns w)\<rparr>)"

section \<open>Dependencies\<close>




section \<open>Decorators\<close>

text \<open>
  The closures that the registration methods return are modelled by what they call when
  invoked: \<^verbatim>\<open>() => this.removeDecorator(key, decorator)\<close> and
  \<^verbatim>\<open>() => this.removeHook(hookType, key, hook)\<close>.
\<close>

datatype remover = DecoratorRemover string fid | HookRemover phase string fid

text \<open>\<^verbatim>\<open>typeof this[key] === 'function'\<close>: a facade method or an inherited method.\<close>

definition is_function_member :: "wrapper \<Rightarrow> string \<Rightarrow> bool" where
  "is_function_member w key \<longleftrightarrow>
     key \<in> set (map fst (entries (defn w))) \<or> key \<in> set (members w)"

definition cause_key :: "string \<Rightarrow> jsval" where
  "cause_key key = JObj [''key'' \<mapsto> JStr key]"

definition addDecorator :: "string \<Rightarrow> fid \<Rightarrow> wrapper \<Rightarrow> (error + remover) \<times> wrapper" where
  "addDecorator key decorator w =
     (if \<not> is_function_member w key then
        (Inl (TypeError ''Cannot decorate non-function property'' (cause_key key)), w)
      else if lookup_fn w key = None then
        (Inl (TypeError ''Cannot decorate non-Dapi function property'' (cause_key key)), w)
      else
        (let ds = (case decorators w key of None \<Rightarrow> [] | Some l \<Rightarrow> l);
             w1 = w\<lparr>decorators := (decorators w)(key \<mapsto> ds @ [decorator])\<rparr>
         in (Inr (DecoratorRemover key decorator), makeDecorable key w1)))"

text \<open>
  \<^verbatim>\<open>removeDecorator\<close>: the first identical decorator of the key is spliced out, a list
  left empty is deleted, and the decoration state of the key is looked at again.
\<close>

definition removeDecorator :: "string \<Rightarrow> fid \<Rightarrow> wrapper \<Rightarrow> wrapper" where
  "removeDecorator key decorator w =
     (let w1 = (case decorators w key of
                  None \<Rightarrow> w
                | Some ds \<Rightarrow>
                    if decorator \<in> set ds
                    then w\<lparr>decorators := (decorators w)(key \<mapsto> remove1 decorator ds)\<rparr>
                    else w);
          w2 = (case decorators w1 key of
                  Some [] \<Rightarrow> w1\<lparr>decorators := (decorators w1)(key := None)\<rparr>
                | _ \<Rightarrow> w1)
      in unmakeDecorable key w2)"

section \<open>Hooks\<close>

fun hooks_of :: "phase \<Rightarrow> hook_record \<Rightarrow> fid list" where
  "hooks_of Pre r = pre r"
| "hooks_of Post r = post r"

fun set_hooks :: "phase \<Rightarrow> fid list \<Rightarrow> hook_record \<Rightarrow> hook_record" where
  "set_hooks Pre hs r = r\<lparr>pre := hs\<rparr>"
| "set_hooks Post hs r = r\<lparr>post := hs\<rparr>"

definition addHook :: "phase \<Rightarrow> string \<Rightarrow> fid \<Rightarrow> wrapper \<Rightarrow> (error + remover) \<times> wrapper" where
  "addHook hookType key h w =
     (if key \<notin> set (map fst (entries (defn w))) then
        (Inl (TypeError ''Cannot hook to non-function property'' (cause_key key)), w)
      else
        (let (w1, a) = (case hooks w key of
                          Some a \<Rightarrow> (w, a)
                        | None \<Rightarrow>
                            (w\<lparr>hooks := (hooks w)(key \<mapsto> nextRec w),
                               hookRecs := (hookRecs w)(nextRec w := \<lparr>pre = [], post = []\<rparr>),
                               nextRec := Suc (nextRec w)\<rparr>,
                             nextRec w));
             r = hookRecs w1 a;
             w2 = w1\<lparr>hookRecs := (hookRecs w1)(a := set_hooks hookType (hooks_of hookType r @ [h]) r)\<rparr>
         in (Inr (HookRemover hookType key h), makeDecorable key w2)))"

text \<open>
  \<^verbatim>\<open>removeHook\<close> reads \<^verbatim>\<open>this.hooks[key][hookType]\<close> first: without a hook record for the
  key this is a property read on \<^verbatim>\<open>undefined\<close>, which throws.
\<close>

definition removeHook :: "phase \<Rightarrow> string \<Rightarrow> fid \<Rightarrow> wrapper \<Rightarrow> (error + unit) \<times> wrapper" where
  "removeHook hookType key h w =
     (case hooks w key of
        None \<Rightarrow> (Inl (TypeError ''Cannot read properties of undefined'' Undefined), w)
      | Some a \<Rightarrow>
          (let r = hookRecs w a;
               w1 = (if h \<in> set (hooks_of hookType r)
                     then w\<lparr>hookRecs := (hookRecs w)
                            (a := set_hooks hookType (remove1 h (hooks_of hookType r)) r)\<rparr>
                     else w);
               w2 = (if pre (hookRecs w1 a) = [] \<and> post (hookRecs w1 a) = []
                     then w1\<lparr>hooks := (hooks w1)(key := None)\<rparr>
                     else w1)
           in (Inr (), unmakeDecorable key w2)))"

definition addPreHook :: "string \<Rightarrow> fid \<Rightarrow> wrapper \<Rightarrow> (error + remover) \<times> wrapper" where
  "addPreHook key h w = addHook Pre key h w"

definition addPostHook :: "string \<Rightarrow> fid \<Rightarrow> wrapper \<Rightarrow> (error + remover) \<times> wrapper" where
  "addPostHook key h w = addHook Post key h w"

definition removePreHook :: "string \<Rightarrow> fid \<Rightarrow> wrapper \<Rightarrow> (error + unit) \<times> wrapper" where
  "removePreHook key h w = removeHook Pre key h w"

definition removePostHook :: "string \<Rightarrow> fid \<Rightarrow> wrapper \<Rightarrow> (error + unit) \<times> wrapper" where
  "removePostHook key h w = removeHook Post key h w"

section \<open>Removers and \<^verbatim>\<open>decorateAll\<close>\<close>

fun run_remover :: "remover \<Rightarrow> wrapper \<Rightarrow> (error + unit) \<times> wrapper" where
  "run_remover (DecoratorRemover key decorator) w = (Inr (), removeDecorator key decorator w)"
| "run_remover (HookRemover hookType key h) w = removeHook hookType key h w"

text \<open>The loop of \<^verbatim>\<open>decorateAll\<close> over \<^verbatim>\<open>Object.keys(fns)\<close>, collecting the removers.\<close>

fun decorateAll_loop ::
  "fid \<Rightarrow> string list \<Rightarrow> remover list \<Rightarrow> wrapper \<Rightarrow> (error + remover list) \<times> wrapper" where
  "decorateAll_loop decorator [] removeDecorators w = (Inr removeDecorators, w)"
| "decorateAll_loop decorator (key # keys) removeDecorators w =
     (case addDecorator key decorator w of
        (Inl e, w1) \<Rightarrow> (Inl e, w1)
      | (Inr r, w1) \<Rightarrow> decorateAll_loop decorator keys (removeDecorators @ [r]) w1)"

definition decorateAll :: "fid \<Rightarrow> wrapper \<Rightarrow> (error + remover list) \<times> wrapper" where
  "decorateAll decorator w =
     decorateAll_loop decorator (map fst (entries (defn w))) [] w"

text \<open>The closure \<^verbatim>\<open>decorateAll\<close> returns: it calls the collected removers in order.\<close>

fun run_removers :: "remover list \<Rightarrow> wrapper \<Rightarrow> (error + unit) \<times> wrapper" where
  "run_removers [] w = (Inr (), w)"
| "run_removers (r # rs) w =
     (case run_remover r w of
        (Inl e, w1) \<Rightarrow> (Inl e, w1)
      | (Inr u, w1) \<Rightarrow> run_removers rs w1)"


section \<open>A definition to run the model on\<close>

text \<open>
  A definition with a synchronous command, a command that returns a promise and a command that
  throws. The outside state is the log of the calls made: who was called, with which
  arguments.
\<close>

type_synonym call_log = "(string \<times> jsval list) list"

definition demo_deps :: jsval where
  "demo_deps = JObj [''foo'' \<mapsto> JStr ''bar'']"

definition demo_definition :: dapi_definition where
  "demo_definition =
     \<lparr>dependencies = demo_deps,
      fns = Some [(''double'', 0), (''fetch'', 1), (''fail'', 2)],
      type_tag = JStr ''test'',
      name_tag = Undefined\<rparr>"

text \<open>\<open>double(deps, x) = 2 * x\<close>, \<open>fetch\<close> returns promise 7, \<open>fail\<close> throws.\<close>

definition demo_cmd :: "fid \<Rightarrow> call_log user_fn" where
  "demo_cmd f w args x =
     (if f = 0 then
        (case args of
           [d, JNum n] \<Rightarrow> (Inr (JNum (2 * n)), x @ [(''double'', args)])
         | _ \<Rightarrow> (Inr JNaN, x @ [(''double'', args)]))
      else if f = 1 then (Inr (JPromise 7), x @ [(''fetch'', args)])
      else (Inl (Thrown (JStr ''failed'')), x @ [(''fail'', args)]))"

text \<open>Hook 21 throws; every other hook only logs its call.\<close>

definition demo_hook :: "fid \<Rightarrow> call_log user_fn" where
  "demo_hook f w args x =
     (if f = 21 then (Inl (Thrown (JStr ''hook failed'')), x @ [(''hook21'', args)])
      else if f = 22 then (Inr Undefined, x @ [(''hook22'', args)])
      else (Inr Undefined, x @ [(''hook'', args)]))"

definition log_call :: "string \<Rightarrow> jsval list \<Rightarrow> call_log world \<Rightarrow> call_log world" where
  "log_call who args wd = wd\<lparr>ext := ext wd @ [(who, args)]\<rparr>"

text \<open>
  Decorator 10 is \<^verbatim>\<open>(next, ...args) => next(...args) + 1\<close>, decorator 11 is
  \<^verbatim>\<open>(next, ...args) => next(...args) * 2\<close>, decorator 12 throws without calling \<^verbatim>\<open>next\<close>;
  each logs when it is entered and when it returns.
\<close>

definition demo_dec :: "fid \<Rightarrow> call_log decorator_fn" where
  "demo_dec f w next args wd =
     (if f = 10 then
        (case next args (log_call ''inc:enter'' args wd) of
           (Inr (JNum n), wd1) \<Rightarrow> (Inr (JNum (n + 1)), log_call ''inc:return'' [] wd1)
         | (r, wd1) \<Rightarrow> (r, log_call ''inc:return'' [] wd1))
      else if f = 11 then
        (case next args (log_call ''twice:enter'' args wd) of
           (Inr (JNum n), wd1) \<Rightarrow> (Inr (JNum (2 * n)), log_call ''twice:return'' [] wd1)
         | (r, wd1) \<Rightarrow> (r, log_call ''twice:return'' [] wd1))
      else (Inl (Thrown (JStr ''decorator failed'')), log_call ''thrower'' args wd))"

definition demo_env :: "call_log env" where
  "demo_env = \<lparr>cmd = demo_cmd, dec = demo_dec, hook = demo_hook\<rparr>"

definition demo_wrapper :: wrapper where
  "demo_wrapper = new_wrapper demo_definition [''hasOwnProperty'', ''valueOf'']"

definition world0 :: "call_log world" where
  "world0 = \<lparr>ext = [], jobs = [], unhandled = []\<rparr>"

section \<open>Sequences of registrations\<close>

text \<open>
  The calls that change the registries, and the calls of the closures they returned. A
  sequence runs until a call throws.
\<close>

datatype op =
    AddDecorator string fid
  | RemoveDecorator string fid
  | DecorateAll fid
  | AddHook phase string fid
  | RemoveHook phase string fid
  | CallRemover remover
  | CallRemovers "remover list"

definition discard :: "(error + 'a) \<times> wrapper \<Rightarrow> (error + unit) \<times> wrapper" where
  "discard res = (case res of (Inl e, w) \<Rightarrow> (Inl e, w) | (Inr r, w) \<Rightarrow> (Inr (), w))"

fun apply_op :: "op \<Rightarrow> wrapper \<Rightarrow> (error + unit) \<times> wrapper" where
  "apply_op (AddDecorator key d) w = discard (addDecorator key d w)"
| "apply_op (RemoveDecorator key d) w = (Inr (), removeDecorator key d w)"
| "apply_op (DecorateAll d) w = discard (decorateAll d w)"
| "apply_op (AddHook hookType key h) w = discard (addHook hookType key h w)"
| "apply_op (RemoveHook hookType key h) w = removeHook hookType key h w"
| "apply_op (CallRemover r) w = run_remover r w"
| "apply_op (CallRemovers rs) w = run_removers rs w"

fun run_ops :: "op list \<Rightarrow> wrapper \<Rightarrow> (error + unit) \<times> wrapper" where
  "run_ops [] w = (Inr (), w)"
| "run_ops (x # xs) w =
     (case apply_op x w of
        (Inl e, w1) \<Rightarrow> (Inl e, w1)
      | (Inr u, w1) \<Rightarrow> run_ops xs w1)"

text \<open>
  The consistency of the registries: a key is in the decorated list exactly when it has a
  decorator list or a hook record, no decorator list is empty, and no hook record is empty.
\<close>

definition registries_consistent :: "wrapper \<Rightarrow> bool" where
  "registries_consistent w \<longleftrightarrow>
     (\<forall>key. key \<in> set (decoratedFns w) \<longleftrightarrow> decorators w key \<noteq> None \<or> hooks w key \<noteq> None) \<and>
     (\<forall>key ds. decorators w key = Some ds \<longrightarrow> ds \<noteq> []) \<and>
     (\<forall>key a. hooks w key = Some a \<longrightarrow> pre (hookRecs w a) \<noteq> [] \<or> post (hookRecs w a) \<noteq> [])"

text \<open>
  What the proofs carry along with it: no key is listed twice, and the hook records of
  different keys are different records, allocated below the counter.
\<close>

definition registries_wf :: "wrapper \<Rightarrow> bool" where
  "registries_wf w \<longleftrightarrow>
     registries_consistent w \<and>
     distinct (decoratedFns w) \<and>
     (\<forall>key a. hooks w key = Some a \<longrightarrow> a < nextRec w) \<and>
     (\<forall>key key' a. hooks w key = Some a \<longrightarrow> hooks w key' = Some a \<longrightarrow> key = key')"






section \<open>Properties\<close>

lemmas demo_defs = demo_wrapper_def new_wrapper_def demo_definition_def entries_def makeFacade_def
  class_methods_def demo_env_def demo_cmd_def demo_hook_def demo_dec_def world0_def log_call_def
  demo_deps_def

lemma lookup_fn_absent:
  "key \<notin> set (map fst (entries (defn w))) \<Longrightarrow> lookup_fn w key = None"
  by (simp add: lookup_fn_def map_of_eq_None_iff)

text \<open>
  Claim C6. For a key that is not an entry of the function map, \<^verbatim>\<open>addDecorator\<close> and
  \<^verbatim>\<open>addHook\<close> throw a \<^verbatim>\<open>TypeError\<close> whose cause names the key, and the wrapper they leave
  is the wrapper they were given: the decorators, the hooks, the decorated keys and the
  facade are unchanged.
\<close>

theorem C6_absent_key_rejected:
  assumes "key \<notin> set (map fst (entries (defn w)))"
  shows "addDecorator key decorator w =
           (Inl (TypeError (if is_function_member w key
                            then ''Cannot decorate non-Dapi function property''
                            else ''Cannot decorate non-function property'') (cause_key key)), w)
         \<and> addHook hookType key h w =
           (Inl (TypeError ''Cannot hook to non-function property'' (cause_key key)), w)"
  using assms lookup_fn_absent [OF assms] by (simp add: addDecorator_def addHook_def)

theorem C6_absent_key_rejected_witness:
  "''toString'' \<notin> set (map fst (entries (defn demo_wrapper)))
   \<and> addDecorator ''toString'' 10 demo_wrapper =
       (Inl (TypeError ''Cannot decorate non-Dapi function property'' (cause_key ''toString'')),
        demo_wrapper)
   \<and> addHook Pre ''toString'' 20 demo_wrapper =
       (Inl (TypeError ''Cannot hook to non-function property'' (cause_key ''toString'')),
        demo_wrapper)"
proof -
  have absent: "''toString'' \<notin> set (map fst (entries (defn demo_wrapper)))"
    by (simp add: demo_defs)
  have fm: "is_function_member demo_wrapper ''toString''"
    by (simp add: is_function_member_def demo_defs)
  show ?thesis
    using absent fm C6_absent_key_rejected [OF absent, of 10 Pre 20] by simp
qed

lemma makeFacade_loop_absent:
  "key \<notin> set (map fst es) \<Longrightarrow> makeFacade_loop es m key = m key"
  by (induction es arbitrary: m) auto



lemma makeFacade_absent:
  "key \<notin> set (map fst es) \<Longrightarrow> makeFacade es key = None"
  by (simp add: makeFacade_def makeFacade_loop_absent)

lemma createDapi_Inr:
  "createDapi d sm = Inr w \<Longrightarrow> w = new_wrapper d sm \<and> DapiMixin d = Inr ()"
  by (auto simp: createDapi_def split: sum.splits)













lemmas op_defs = addDecorator_def removeDecorator_def addHook_def removeHook_def makeDecorable_def
  unmakeDecorable_def is_function_member_def lookup_fn_def cause_key_def
lemmas call_defs = invoke_def direct_call_def decorable_call_def decorated_method_def
  call_command_def hookDecorator_def

lemma reduce_as_nesting:
  "foldl (\<lambda>decoratedMethod decorator. decorator decoratedMethod) base (map g ds) =
   foldr (\<lambda>d next. g d next) (rev ds) base"
  by (induction ds arbitrary: base) simp_all

lemma decorated_method_nesting:
  "decorated_method E w key c =
     foldr (\<lambda>d next. dec E d w next)
       (rev (case decorators w key of None \<Rightarrow> [] | Some ds \<Rightarrow> ds))
       (case hookDecorator E w key of
          None \<Rightarrow> call_command E w c
        | Some h \<Rightarrow> h (call_command E w c))"
proof (cases "hookDecorator E w key")
  case None
  then show ?thesis
    by (simp add: decorated_method_def reduce_as_nesting split: option.splits)
next
  case (Some h)
  then show ?thesis
    by (simp add: decorated_method_def reduce_as_nesting)
qed

lemma invoke_decorable:
  "facade w key = Some (Decorable c) \<Longrightarrow>
   invoke E w key params wd = decorated_method E w key c (deps w # params) wd"
  by (simp add: invoke_def decorable_call_def)

text \<open>
  Claim C1, as the code has it. For a decorated key the facade call is the nest of the
  decorators of the key around an innermost callable, applied to \<open>(deps, ...params)\<close>: the
  innermost callable is the hook decorator around the bound command when the key has hooks,
  the bound command otherwise, and each decorator receives as \<open>next\<close> the nest of the
  decorators registered before it. The decorator registered last is the outermost wrapper.
\<close>

theorem C1_last_registered_outermost:
  assumes "facade w key = Some (Decorable c)"
  shows "invoke E w key params wd =
           foldr (\<lambda>d next. dec E d w next)
             (rev (case decorators w key of None \<Rightarrow> [] | Some ds \<Rightarrow> ds))
             (case hookDecorator E w key of
                None \<Rightarrow> call_command E w c
              | Some h \<Rightarrow> h (call_command E w c))
             (deps w # params) wd
         \<and> (\<forall>ds d. decorators w key = Some (ds @ [d]) \<longrightarrow>
               invoke E w key params wd =
                 dec E d w
                   (foldr (\<lambda>d next. dec E d w next) (rev ds)
                      (case hookDecorator E w key of
                         None \<Rightarrow> call_command E w c
                       | Some h \<Rightarrow> h (call_command E w c)))
                   (deps w # params) wd)"
  using assms by (simp add: invoke_decorable decorated_method_nesting)


lemma demo_facade:
  "facade demo_wrapper = [''double'' \<mapsto> Direct (Some 0), ''fetch'' \<mapsto> Direct (Some 1),
     ''fail'' \<mapsto> Direct (Some 2)]"
  by (simp add: demo_wrapper_def new_wrapper_def demo_definition_def entries_def makeFacade_def)

lemma demo_fields:
  "deps demo_wrapper = demo_deps"
  "decoratedFns demo_wrapper = []"
  "decorators demo_wrapper = Map.empty"
  "hooks demo_wrapper = Map.empty"
  "nextRec demo_wrapper = 0"
  "hookRecs demo_wrapper = (\<lambda>a. \<lparr>pre = [], post = []\<rparr>)"
  "entries (defn demo_wrapper) = [(''double'', 0), (''fetch'', 1), (''fail'', 2)]"
  by (simp_all add: demo_wrapper_def new_wrapper_def demo_definition_def entries_def demo_deps_def)

lemma demo_is_member:
  "is_function_member demo_wrapper ''double''"
  "is_function_member demo_wrapper ''fetch''"
  "is_function_member demo_wrapper ''fail''"
  by (simp_all add: is_function_member_def demo_fields)

lemma demo_two_decorators:
  "snd (addDecorator ''double'' 11 (snd (addDecorator ''double'' 10 demo_wrapper))) =
     demo_wrapper\<lparr>decoratedFns := [''double''],
       facade := (facade demo_wrapper)(''double'' \<mapsto> Decorable 0),
       decorators := [''double'' \<mapsto> [10, 11]]\<rparr>"
  by (simp add: addDecorator_def makeDecorable_def lookup_fn_def demo_fields
      is_function_member_def)

text \<open>
  Claim C1 as stated fails. With decorator 10 (adds one) registered before decorator 11
  (doubles) on \<open>double\<close>, the call \<open>double(5)\<close> enters 11 first and returns
  \<open>(2 * 5 + 1) * 2 = 22\<close>; with the first-registered decorator outermost it would enter 10
  first and return \<open>2 * (2 * 5) + 1 = 21\<close>.
\<close>

theorem C1_first_registered_not_outermost:
  "invoke demo_env
     (snd (addDecorator ''double'' 11 (snd (addDecorator ''double'' 10 demo_wrapper))))
     ''double'' [JNum 5] world0 =
     (Inr (JNum 22),
      world0\<lparr>ext := [(''twice:enter'', [demo_deps, JNum 5]), (''inc:enter'', [demo_deps, JNum 5]),
                    (''double'', [demo_deps, JNum 5]), (''inc:return'', []),
                    (''twice:return'', [])]\<rparr>)
   \<and> dec demo_env 10
       (snd (addDecorator ''double'' 11 (snd (addDecorator ''double'' 10 demo_wrapper))))
       (dec demo_env 11
          (snd (addDecorator ''double'' 11 (snd (addDecorator ''double'' 10 demo_wrapper))))
          (call_command demo_env
             (snd (addDecorator ''double'' 11 (snd (addDecorator ''double'' 10 demo_wrapper))))
             0))
       [demo_deps, JNum 5] world0 =
     (Inr (JNum 21),
      world0\<lparr>ext := [(''inc:enter'', [demo_deps, JNum 5]), (''twice:enter'', [demo_deps, JNum 5]),
                    (''double'', [demo_deps, JNum 5]), (''twice:return'', []),
                    (''inc:return'', [])]\<rparr>)"
  by (simp add: demo_two_decorators call_defs demo_fields demo_env_def demo_dec_def demo_cmd_def
      world0_def log_call_def Let_def)

theorem C1_last_registered_outermost_witness:
  "facade (snd (addDecorator ''double'' 11 (snd (addDecorator ''double'' 10 demo_wrapper))))
     ''double'' = Some (Decorable 0)
   \<and> fst (invoke demo_env
       (snd (addDecorator ''double'' 11 (snd (addDecorator ''double'' 10 demo_wrapper))))
       ''double'' [JNum 5] world0) = Inr (JNum 22)"
proof -
  let ?w = "snd (addDecorator ''double'' 11 (snd (addDecorator ''double'' 10 demo_wrapper)))"
  have fa: "facade ?w ''double'' = Some (Decorable 0)"
    by (simp add: demo_two_decorators)
  have ds: "decorators ?w ''double'' = Some ([10] @ [11])"
    by (simp add: demo_two_decorators)
  from C1_last_registered_outermost [OF fa, of demo_env "[JNum 5]" world0] ds
  have "invoke demo_env ?w ''double'' [JNum 5] world0 =
      dec demo_env 11 ?w
        (foldr (\<lambda>d next. dec demo_env d ?w next) (rev [10])
           (case hookDecorator demo_env ?w ''double'' of
              None \<Rightarrow> call_command demo_env ?w 0
            | Some h \<Rightarrow> h (call_command demo_env ?w 0)))
        (deps ?w # [JNum 5]) world0"
    by blast
  then have "fst (invoke demo_env ?w ''double'' [JNum 5] world0) = Inr (JNum 22)"
    by (simp add: demo_two_decorators hookDecorator_def call_command_def demo_fields demo_env_def
        demo_dec_def demo_cmd_def world0_def log_call_def)
  with fa show ?thesis by blast
qed


lemma hookDecorator_Some:
  "hooks w key = Some a \<Longrightarrow> hookDecorator E w key = Some (hook_decorator_fn E w a)"
  by (simp add: hookDecorator_def)

lemma invoke_hooks_only:
  assumes "facade w key = Some (Decorable c)" and "decorators w key = None"
    and "hooks w key = Some a"
  shows "invoke E w key params wd =
           hook_decorator_fn E w a (call_command E w c) (deps w # params) wd"
  using assms by (simp add: invoke_decorable decorated_method_nesting hookDecorator_Some)









lemma hook_decorator_fn_promise:
  assumes "run_hooks E w (pre (hookRecs w a)) args wd = (None, wd1)"
    and "wrapped args wd1 = (Inr (JPromise p), wd2)"
  shows "hook_decorator_fn E w a wrapped args wd =
           (Inr (JPromise p),
            wd2\<lparr>jobs := jobs wd2 @ [\<lparr>on_promise = p, post_ref = a, hook_args = args\<rparr>]\<rparr>)"
  using assms by (simp add: hook_decorator_fn_def)

lemma hook_decorator_fn_sync:
  assumes "run_hooks E w (pre (hookRecs w a)) args wd = (None, wd1)"
    and "wrapped args wd1 = (Inr result, wd2)"
    and "\<forall>p. result \<noteq> JPromise p"
  shows "hook_decorator_fn E w a wrapped args wd =
           (case run_hooks E w (post (hookRecs w a)) args wd2 of
              (Some e, wd3) \<Rightarrow> (Inl e, wd3)
            | (None, wd3) \<Rightarrow> (Inr result, wd3))"
  using assms by (cases result) (auto simp: hook_decorator_fn_def)



lemma demo_post_hook_fetch:
  "snd (addHook Post ''fetch'' h demo_wrapper) =
     demo_wrapper\<lparr>decoratedFns := [''fetch''],
       facade := (facade demo_wrapper)(''fetch'' \<mapsto> Decorable 1),
       hooks := [''fetch'' \<mapsto> 0],
       hookRecs := (hookRecs demo_wrapper)(0 := \<lparr>pre = [], post = [h]\<rparr>),
       nextRec := 1\<rparr>"
  by (simp add: addHook_def makeDecorable_def lookup_fn_def demo_fields)


text \<open>
  Claim C5 as stated fails. With a post-hook that throws on \<open>fetch\<close>, whose result is a
  promise, the facade call returns the promise and no error. When the promise is fulfilled
  the post-hook runs and throws; its error rejects the promise derived by \<^verbatim>\<open>then\<close>, which
  nobody holds, and never reaches the caller of the facade method.
\<close>

theorem C5_async_post_hook_error_lost:
  "invoke demo_env (snd (addHook Post ''fetch'' 21 demo_wrapper)) ''fetch'' [] world0 =
     (Inr (JPromise 7),
      world0\<lparr>ext := [(''fetch'', [demo_deps])],
        jobs := [\<lparr>on_promise = 7, post_ref = 0, hook_args = [demo_deps]\<rparr>]\<rparr>)
   \<and> settle demo_env (snd (addHook Post ''fetch'' 21 demo_wrapper)) 7 (Fulfilled (JNum 1))
       (world0\<lparr>ext := [(''fetch'', [demo_deps])],
          jobs := [\<lparr>on_promise = 7, post_ref = 0, hook_args = [demo_deps]\<rparr>]\<rparr>) =
     world0\<lparr>ext := [(''fetch'', [demo_deps]), (''hook21'', [demo_deps])],
       unhandled := [Thrown (JStr ''hook failed'')]\<rparr>"
  by (simp add: demo_post_hook_fetch call_defs hook_decorator_fn_def settle_def demo_fields
      demo_env_def demo_hook_def demo_cmd_def world0_def Let_def)


lemma invoke_direct_throw:
  "facade w key = Some (Direct (Some c)) \<Longrightarrow>
   cmd E c w (deps w # params) (ext wd) = (Inl e, x) \<Longrightarrow>
   invoke E w key params wd = (Inl e, wd\<lparr>ext := x\<rparr>)"
  by (simp add: invoke_def direct_call_def call_command_def)

lemma invoke_outermost:
  "facade w key = Some (Decorable c) \<Longrightarrow> decorators w key = Some (ds @ [d]) \<Longrightarrow>
   invoke E w key params wd =
     dec E d w
       (foldr (\<lambda>d next. dec E d w next) (rev ds)
          (case hookDecorator E w key of
             None \<Rightarrow> call_command E w c
           | Some h \<Rightarrow> h (call_command E w c)))
       (deps w # params) wd"
  by (simp add: invoke_decorable decorated_method_nesting)

lemma run_reactions_single_throw:
  "run_hooks E w (post (hookRecs w a)) args wd = (Some e, wd3) \<Longrightarrow>
   run_reactions E w (Fulfilled v) [\<lparr>on_promise = p, post_ref = a, hook_args = args\<rparr>] wd =
     wd3\<lparr>unhandled := unhandled wd3 @ [e]\<rparr>"
  by simp

text \<open>
  Claim C5, as the code has it. An error thrown by the command of an undecorated key is the
  error of the facade call. On a decorated key the facade call returns or throws exactly
  what the outermost decorator does. Through the hook decorator, an error thrown by a
  pre-hook, by the wrapped method, or by a post-hook that runs after a result that is not a
  promise comes out unmodified. After a promise result the hook decorator returns the
  promise, and an error thrown by a post-hook once the promise is fulfilled is not delivered
  to the caller: it is recorded as the rejection of the derived promise.
\<close>

theorem C5_errors_through_the_engine:
  "(facade w key = Some (Direct (Some c)) \<longrightarrow>
      cmd E c w (deps w # params) (ext wd) = (Inl e, x) \<longrightarrow>
      invoke E w key params wd = (Inl e, wd\<lparr>ext := x\<rparr>))
   \<and> (facade w key = Some (Decorable c) \<longrightarrow> decorators w key = Some (ds @ [d]) \<longrightarrow>
      invoke E w key params wd =
        dec E d w
          (foldr (\<lambda>d next. dec E d w next) (rev ds)
             (case hookDecorator E w key of
                None \<Rightarrow> call_command E w c
              | Some h \<Rightarrow> h (call_command E w c)))
          (deps w # params) wd)
   \<and> (hooks w key = Some a \<longrightarrow>
      (\<exists>h. hookDecorator E w key = Some h
        \<and> (run_hooks E w (pre (hookRecs w a)) args wd = (Some e, wd1) \<longrightarrow>
             h wrapped args wd = (Inl e, wd1))
        \<and> (run_hooks E w (pre (hookRecs w a)) args wd = (None, wd1) \<longrightarrow>
             wrapped args wd1 = (Inl e, wd2) \<longrightarrow>
             h wrapped args wd = (Inl e, wd2))
        \<and> (run_hooks E w (pre (hookRecs w a)) args wd = (None, wd1) \<longrightarrow>
             wrapped args wd1 = (Inr result, wd2) \<longrightarrow> (\<forall>p. result \<noteq> JPromise p) \<longrightarrow>
             run_hooks E w (post (hookRecs w a)) args wd2 = (Some e, wd3) \<longrightarrow>
             h wrapped args wd = (Inl e, wd3))
        \<and> (run_hooks E w (pre (hookRecs w a)) args wd = (None, wd1) \<longrightarrow>
             wrapped args wd1 = (Inr (JPromise p), wd2) \<longrightarrow>
             h wrapped args wd =
               (Inr (JPromise p),
                wd2\<lparr>jobs := jobs wd2 @ [\<lparr>on_promise = p, post_ref = a, hook_args = args\<rparr>]\<rparr>)
             \<and> (\<forall>wdS v. run_hooks E w (post (hookRecs w a)) args wdS = (Some e, wd3) \<longrightarrow>
                   run_reactions E w (Fulfilled v)
                     [\<lparr>on_promise = p, post_ref = a, hook_args = args\<rparr>] wdS =
                     wd3\<lparr>unhandled := unhandled wd3 @ [e]\<rparr>))))"
proof (intro conjI impI)
  assume "facade w key = Some (Direct (Some c))"
    and "cmd E c w (deps w # params) (ext wd) = (Inl e, x)"
  then show "invoke E w key params wd = (Inl e, wd\<lparr>ext := x\<rparr>)"
    by (rule invoke_direct_throw)
next
  assume "facade w key = Some (Decorable c)" and "decorators w key = Some (ds @ [d])"
  then show "invoke E w key params wd =
        dec E d w
          (foldr (\<lambda>d next. dec E d w next) (rev ds)
             (case hookDecorator E w key of
                None \<Rightarrow> call_command E w c
              | Some h \<Rightarrow> h (call_command E w c)))
          (deps w # params) wd"
    by (rule invoke_outermost)
next
  assume hk: "hooks w key = Some a"
  show "\<exists>h. hookDecorator E w key = Some h
        \<and> (run_hooks E w (pre (hookRecs w a)) args wd = (Some e, wd1) \<longrightarrow>
             h wrapped args wd = (Inl e, wd1))
        \<and> (run_hooks E w (pre (hookRecs w a)) args wd = (None, wd1) \<longrightarrow>
             wrapped args wd1 = (Inl e, wd2) \<longrightarrow>
             h wrapped args wd = (Inl e, wd2))
        \<and> (run_hooks E w (pre (hookRecs w a)) args wd = (None, wd1) \<longrightarrow>
             wrapped args wd1 = (Inr result, wd2) \<longrightarrow> (\<forall>p. result \<noteq> JPromise p) \<longrightarrow>
             run_hooks E w (post (hookRecs w a)) args wd2 = (Some e, wd3) \<longrightarrow>
             h wrapped args wd = (Inl e, wd3))
        \<and> (run_hooks E w (pre (hookRecs w a)) args wd = (None, wd1) \<longrightarrow>
             wrapped args wd1 = (Inr (JPromise p), wd2) \<longrightarrow>
             h wrapped args wd =
               (Inr (JPromise p),
                wd2\<lparr>jobs := jobs wd2 @ [\<lparr>on_promise = p, post_ref = a, hook_args = args\<rparr>]\<rparr>)
             \<and> (\<forall>wdS v. run_hooks E w (post (hookRecs w a)) args wdS = (Some e, wd3) \<longrightarrow>
                   run_reactions E w (Fulfilled v)
                     [\<lparr>on_promise = p, post_ref = a, hook_args = args\<rparr>] wdS =
                     wd3\<lparr>unhandled := unhandled wd3 @ [e]\<rparr>))"
  proof (intro exI conjI impI allI)
    show "hookDecorator E w key = Some (hook_decorator_fn E w a)"
      using hk by (rule hookDecorator_Some)
  next
    assume "run_hooks E w (pre (hookRecs w a)) args wd = (Some e, wd1)"
    then show "hook_decorator_fn E w a wrapped args wd = (Inl e, wd1)"
      by (simp add: hook_decorator_fn_def)
  next
    assume "run_hooks E w (pre (hookRecs w a)) args wd = (None, wd1)"
      and "wrapped args wd1 = (Inl e, wd2)"
    then show "hook_decorator_fn E w a wrapped args wd = (Inl e, wd2)"
      by (simp add: hook_decorator_fn_def)
  next
    assume a: "run_hooks E w (pre (hookRecs w a)) args wd = (None, wd1)"
      and b: "wrapped args wd1 = (Inr result, wd2)"
      and c: "\<forall>p. result \<noteq> JPromise p"
      and d: "run_hooks E w (post (hookRecs w a)) args wd2 = (Some e, wd3)"
    show "hook_decorator_fn E w a wrapped args wd = (Inl e, wd3)"
      using hook_decorator_fn_sync [of E w a args wd wd1 wrapped result wd2, OF a b c]
      by (simp add: d)
  next
    assume a: "run_hooks E w (pre (hookRecs w a)) args wd = (None, wd1)"
      and b: "wrapped args wd1 = (Inr (JPromise p), wd2)"
    show "hook_decorator_fn E w a wrapped args wd =
        (Inr (JPromise p),
         wd2\<lparr>jobs := jobs wd2 @ [\<lparr>on_promise = p, post_ref = a, hook_args = args\<rparr>]\<rparr>)"
      by (rule hook_decorator_fn_promise [of E w a args wd wd1 wrapped p wd2, OF a b])
  next
    fix wdS v
    assume "run_hooks E w (post (hookRecs w a)) args wdS = (Some e, wd3)"
    then show "run_reactions E w (Fulfilled v)
        [\<lparr>on_promise = p, post_ref = a, hook_args = args\<rparr>] wdS =
        wd3\<lparr>unhandled := unhandled wd3 @ [e]\<rparr>"
      by (rule run_reactions_single_throw)
  qed
qed


lemma demo_post_hook_double:
  "snd (addHook Post ''double'' h demo_wrapper) =
     demo_wrapper\<lparr>decoratedFns := [''double''],
       facade := (facade demo_wrapper)(''double'' \<mapsto> Decorable 0),
       hooks := [''double'' \<mapsto> 0],
       hookRecs := (hookRecs demo_wrapper)(0 := \<lparr>pre = [], post = [h]\<rparr>),
       nextRec := 1\<rparr>"
  by (simp add: addHook_def makeDecorable_def lookup_fn_def demo_fields)

theorem C5_errors_through_the_engine_witness:
  "facade demo_wrapper ''fail'' = Some (Direct (Some 2))
   \<and> cmd demo_env 2 demo_wrapper (deps demo_wrapper # []) (ext world0) =
       (Inl (Thrown (JStr ''failed'')), [(''fail'', [demo_deps])])
   \<and> invoke demo_env demo_wrapper ''fail'' [] world0 =
       (Inl (Thrown (JStr ''failed'')), world0\<lparr>ext := [(''fail'', [demo_deps])]\<rparr>)
   \<and> hooks (snd (addHook Post ''double'' 21 demo_wrapper)) ''double'' = Some 0
   \<and> invoke demo_env (snd (addHook Post ''double'' 21 demo_wrapper)) ''double'' [JNum 5] world0 =
       (Inl (Thrown (JStr ''hook failed'')),
        world0\<lparr>ext := [(''double'', [demo_deps, JNum 5]), (''hook21'', [demo_deps, JNum 5])]\<rparr>)"
proof -
  let ?w = "snd (addHook Post ''double'' 21 demo_wrapper)"
  let ?m = "call_command demo_env ?w 0"
  let ?args = "[demo_deps, JNum 5]"
  let ?wd2 = "world0\<lparr>ext := [(''double'', ?args)]\<rparr>"
  let ?wd3 = "world0\<lparr>ext := [(''double'', ?args), (''hook21'', ?args)]\<rparr>"
  have fa: "facade demo_wrapper ''fail'' = Some (Direct (Some 2))"
    by (simp add: demo_facade)
  have th: "cmd demo_env 2 demo_wrapper (deps demo_wrapper # []) (ext world0) =
      (Inl (Thrown (JStr ''failed'')), [(''fail'', [demo_deps])])"
    by (simp add: demo_env_def demo_cmd_def demo_fields world0_def)
  from C5_errors_through_the_engine [where w = demo_wrapper and key = "''fail''" and c = 2
      and E = demo_env and params = "[]" and wd = world0 and e = "Thrown (JStr ''failed'')"
      and x = "[(''fail'', [demo_deps])]"] fa th
  have 1: "invoke demo_env demo_wrapper ''fail'' [] world0 =
      (Inl (Thrown (JStr ''failed'')), world0\<lparr>ext := [(''fail'', [demo_deps])]\<rparr>)"
    by blast
  have hk: "hooks ?w ''double'' = Some 0"
    by (simp add: demo_post_hook_double)
  have pr: "run_hooks demo_env ?w (pre (hookRecs ?w 0)) ?args world0 = (None, world0)"
    by (simp add: demo_post_hook_double)
  have cl: "?m ?args world0 = (Inr (JNum 10), ?wd2)"
    by (simp add: call_command_def demo_env_def demo_cmd_def world0_def)
  have np: "\<forall>p. JNum 10 \<noteq> JPromise p"
    by simp
  have po: "run_hooks demo_env ?w (post (hookRecs ?w 0)) ?args ?wd2 =
      (Some (Thrown (JStr ''hook failed'')), ?wd3)"
    by (simp add: demo_post_hook_double demo_env_def demo_hook_def world0_def)
  from C5_errors_through_the_engine [where w = ?w and key = "''double''" and E = demo_env
      and e = "Thrown (JStr ''hook failed'')" and a = 0 and args = ?args and wd = world0
      and ?wd1.0 = world0 and wrapped = ?m and ?wd2.0 = ?wd2 and result = "JNum 10"
      and ?wd3.0 = ?wd3] hk
  obtain h where h: "hookDecorator demo_env ?w ''double'' = Some h"
    and sync: "run_hooks demo_env ?w (pre (hookRecs ?w 0)) ?args world0 = (None, world0) \<longrightarrow>
      ?m ?args world0 = (Inr (JNum 10), ?wd2) \<longrightarrow> (\<forall>p. JNum 10 \<noteq> JPromise p) \<longrightarrow>
      run_hooks demo_env ?w (post (hookRecs ?w 0)) ?args ?wd2 =
        (Some (Thrown (JStr ''hook failed'')), ?wd3) \<longrightarrow>
      h ?m ?args world0 = (Inl (Thrown (JStr ''hook failed'')), ?wd3)"
    by blast
  from sync pr cl np po
  have call: "h ?m ?args world0 = (Inl (Thrown (JStr ''hook failed'')), ?wd3)"
    by blast
  from h have heq: "h = hook_decorator_fn demo_env ?w 0"
    by (simp add: hookDecorator_Some [OF hk])
  have "invoke demo_env ?w ''double'' [JNum 5] world0 = h ?m ?args world0"
    unfolding heq
    by (subst invoke_hooks_only [of ?w "''double''" 0 0])
      (simp_all add: demo_post_hook_double demo_fields)
  with call have 2: "invoke demo_env ?w ''double'' [JNum 5] world0 =
      (Inl (Thrown (JStr ''hook failed'')), ?wd3)"
    by simp
  from fa th 1 hk 2 show ?thesis by blast
qed


lemma lookup_fn_present:
  "key \<in> set (map fst (entries (defn w))) \<Longrightarrow> \<exists>c. lookup_fn w key = Some c"
  by (cases "lookup_fn w key") (auto simp: lookup_fn_def map_of_eq_None_iff)

lemma wf_makeDecorable:
  assumes "lookup_fn w key \<noteq> None"
    and "decorators w key \<noteq> None \<or> hooks w key \<noteq> None"
    and "\<forall>k. k \<noteq> key \<longrightarrow> (k \<in> set (decoratedFns w) \<longleftrightarrow> decorators w k \<noteq> None \<or> hooks w k \<noteq> None)"
    and "\<forall>k ds. decorators w k = Some ds \<longrightarrow> ds \<noteq> []"
    and "\<forall>k a. hooks w k = Some a \<longrightarrow> pre (hookRecs w a) \<noteq> [] \<or> post (hookRecs w a) \<noteq> []"
    and "distinct (decoratedFns w)"
    and "\<forall>k a. hooks w k = Some a \<longrightarrow> a < nextRec w"
    and "\<forall>k k' a. hooks w k = Some a \<longrightarrow> hooks w k' = Some a \<longrightarrow> k = k'"
  shows "registries_wf (makeDecorable key w)"
  using assms
  unfolding registries_wf_def registries_consistent_def makeDecorable_def
  by (auto split: option.splits)

lemma wf_unmakeDecorable:
  assumes "\<forall>k. k \<noteq> key \<longrightarrow> (k \<in> set (decoratedFns w) \<longleftrightarrow> decorators w k \<noteq> None \<or> hooks w k \<noteq> None)"
    and "decorators w key \<noteq> None \<or> hooks w key \<noteq> None \<longrightarrow> key \<in> set (decoratedFns w)"
    and "\<forall>k ds. decorators w k = Some ds \<longrightarrow> ds \<noteq> []"
    and "\<forall>k a. hooks w k = Some a \<longrightarrow> pre (hookRecs w a) \<noteq> [] \<or> post (hookRecs w a) \<noteq> []"
    and "distinct (decoratedFns w)"
    and "\<forall>k a. hooks w k = Some a \<longrightarrow> a < nextRec w"
    and "\<forall>k k' a. hooks w k = Some a \<longrightarrow> hooks w k' = Some a \<longrightarrow> k = k'"
  shows "registries_wf (unmakeDecorable key w)"
  using assms
  unfolding registries_wf_def registries_consistent_def unmakeDecorable_def
  by (auto split: option.splits)

lemma wf_addDecorator:
  assumes "registries_wf w"
  shows "registries_wf (snd (addDecorator key d w))"
proof (cases "is_function_member w key \<and> lookup_fn w key \<noteq> None")
  case False
  then show ?thesis using assms by (auto simp: addDecorator_def)
next
  case True
  let ?ds = "(case decorators w key of None \<Rightarrow> [] | Some l \<Rightarrow> l) @ [d]"
  let ?w1 = "w\<lparr>decorators := (decorators w)(key \<mapsto> ?ds)\<rparr>"
  have "registries_wf (makeDecorable key ?w1)"
    using assms True
    by (intro wf_makeDecorable) (auto simp: registries_wf_def registries_consistent_def lookup_fn_def)
  with True show ?thesis by (auto simp: addDecorator_def Let_def)
qed

lemma wf_removeDecorator:
  assumes "registries_wf w"
  shows "registries_wf (removeDecorator key d w)"
proof -
  let ?w1 = "(case decorators w key of
                  None \<Rightarrow> w
                | Some ds \<Rightarrow>
                    if d \<in> set ds
                    then w\<lparr>decorators := (decorators w)(key \<mapsto> remove1 d ds)\<rparr>
                    else w)"
  let ?w2 = "(case decorators ?w1 key of
                  Some [] \<Rightarrow> ?w1\<lparr>decorators := (decorators ?w1)(key := None)\<rparr>
                | _ \<Rightarrow> ?w1)"
  have "registries_wf (unmakeDecorable key ?w2)"
    using assms
    by (intro wf_unmakeDecorable)
      (auto simp: registries_wf_def registries_consistent_def split: option.splits list.splits if_splits)
  then show ?thesis by (simp add: removeDecorator_def Let_def)
qed


lemma hooks_of_set_hooks [simp]:
  "pre (set_hooks ph hs r) = (if ph = Pre then hs else pre r)"
  "post (set_hooks ph hs r) = (if ph = Post then hs else post r)"
  by (cases ph; simp)+

lemma wf_addHook:
  assumes "registries_wf w"
  shows "registries_wf (snd (addHook ph key h w))"
proof (cases "key \<in> set (map fst (entries (defn w)))")
  case False
  then show ?thesis using assms by (simp add: addHook_def)
next
  case True
  then obtain c where c: "lookup_fn w key = Some c"
    using lookup_fn_present by blast
  have ph: "ph = Pre \<or> ph = Post" by (cases ph) simp_all
  show ?thesis
  proof (cases "hooks w key")
    case None
    let ?w1 = "w\<lparr>hooks := (hooks w)(key \<mapsto> nextRec w),
                  hookRecs := (hookRecs w)(nextRec w := \<lparr>pre = [], post = []\<rparr>),
                  nextRec := Suc (nextRec w)\<rparr>"
    let ?w2 = "?w1\<lparr>hookRecs := (hookRecs ?w1)
                (nextRec w := set_hooks ph (hooks_of ph (hookRecs ?w1 (nextRec w)) @ [h])
                   (hookRecs ?w1 (nextRec w)))\<rparr>"
    have "registries_wf (makeDecorable key ?w2)"
      using assms c None ph
      by (intro wf_makeDecorable)
        (auto simp: registries_wf_def registries_consistent_def lookup_fn_def
          intro: less_SucI)
    with True None show ?thesis by (simp add: addHook_def Let_def)
  next
    case (Some a)
    let ?w2 = "w\<lparr>hookRecs := (hookRecs w)
                (a := set_hooks ph (hooks_of ph (hookRecs w a) @ [h]) (hookRecs w a))\<rparr>"
    have "registries_wf (makeDecorable key ?w2)"
      using assms c Some ph
      by (intro wf_makeDecorable)
        (auto simp: registries_wf_def registries_consistent_def lookup_fn_def)
    with True Some show ?thesis by (simp add: addHook_def Let_def)
  qed
qed

lemma wf_removeHook:
  assumes "registries_wf w"
  shows "registries_wf (snd (removeHook ph key h w))"
proof (cases "hooks w key")
  case None
  then show ?thesis using assms by (simp add: removeHook_def)
next
  case (Some a)
  let ?r = "hookRecs w a"
  let ?w1 = "(if h \<in> set (hooks_of ph ?r)
              then w\<lparr>hookRecs := (hookRecs w)(a := set_hooks ph (remove1 h (hooks_of ph ?r)) ?r)\<rparr>
              else w)"
  let ?w2 = "(if pre (hookRecs ?w1 a) = [] \<and> post (hookRecs ?w1 a) = []
              then ?w1\<lparr>hooks := (hooks ?w1)(key := None)\<rparr>
              else ?w1)"
  have "registries_wf (unmakeDecorable key ?w2)"
    using assms Some
    by (intro wf_unmakeDecorable)
      (auto simp: registries_wf_def registries_consistent_def split: if_splits)
  with Some show ?thesis by (simp add: removeHook_def Let_def)
qed


lemma wf_new_wrapper: "registries_wf (new_wrapper d sm)"
  by (simp add: registries_wf_def registries_consistent_def new_wrapper_def)

lemma wf_run_remover:
  "registries_wf w \<Longrightarrow> registries_wf (snd (run_remover r w))"
  by (cases r) (simp_all add: wf_removeDecorator wf_removeHook)

lemma wf_run_removers:
  "registries_wf w \<Longrightarrow> registries_wf (snd (run_removers rs w))"
proof (induction rs arbitrary: w)
  case Nil
  then show ?case by simp
next
  case (Cons r rs)
  from Cons.prems have "registries_wf (snd (run_remover r w))"
    by (rule wf_run_remover)
  then show ?case
    using Cons.IH [of "snd (run_remover r w)"]
    by (cases "run_remover r w") (auto split: sum.splits)
qed

lemma wf_decorateAll_loop:
  "registries_wf w \<Longrightarrow> registries_wf (snd (decorateAll_loop d keys rs w))"
proof (induction keys arbitrary: rs w)
  case Nil
  then show ?case by simp
next
  case (Cons key keys)
  from Cons.prems have "registries_wf (snd (addDecorator key d w))"
    by (rule wf_addDecorator)
  then show ?case
    using Cons.IH [of "snd (addDecorator key d w)"]
    by (cases "addDecorator key d w") (auto split: sum.splits)
qed

lemma snd_discard [simp]: "snd (discard res) = snd res"
  by (cases res) (auto simp: discard_def split: sum.splits)

lemma wf_apply_op:
  "registries_wf w \<Longrightarrow> registries_wf (snd (apply_op x w))"
  by (cases x)
    (simp_all add: wf_addDecorator wf_removeDecorator wf_addHook wf_removeHook wf_run_remover
      wf_run_removers wf_decorateAll_loop decorateAll_def)

lemma wf_run_ops:
  "registries_wf w \<Longrightarrow> registries_wf (snd (run_ops xs w))"
proof (induction xs arbitrary: w)
  case Nil
  then show ?case by simp
next
  case (Cons x xs)
  from Cons.prems have "registries_wf (snd (apply_op x w))"
    by (rule wf_apply_op)
  then show ?case
    using Cons.IH [of "snd (apply_op x w)"]
    by (cases "apply_op x w") (auto split: sum.splits)
qed

text \<open>
  Claim C10. After any sequence of \<^verbatim>\<open>addDecorator\<close>, \<^verbatim>\<open>removeDecorator\<close>,
  \<^verbatim>\<open>decorateAll\<close>, \<^verbatim>\<open>addHook\<close>, \<^verbatim>\<open>removeHook\<close> and calls of returned removers on a
  new wrapper, if no call of the sequence throws, then a key is in the decorated list exactly
  when it has an entry in the decorators map or in the hooks map, every decorator list in
  the map is non-empty, and every hook record in the map has a pre-hook or a post-hook.
\<close>

theorem C10_registries_consistent:
  assumes "createDapi d super_members = Inr w0"
    and "run_ops xs w0 = (Inr (), w)"
  shows "registries_consistent w"
proof -
  from createDapi_Inr [OF assms(1)] have "registries_wf w0"
    by (simp add: wf_new_wrapper)
  then have "registries_wf (snd (run_ops xs w0))"
    by (rule wf_run_ops)
  with assms(2) show ?thesis
    by (simp add: registries_wf_def)
qed


lemma demo_created:
  "createDapi demo_definition [''hasOwnProperty'', ''valueOf''] = Inr demo_wrapper"
  by (simp add: createDapi_def DapiMixin_def demo_wrapper_def demo_definition_def demo_deps_def)

lemma demo_ops_run:
  "run_ops [AddHook Post ''fetch'' 20, AddDecorator ''fetch'' 11, RemoveDecorator ''double'' 11,
          CallRemover (HookRemover Post ''fetch'' 20)] demo_wrapper =
     (Inr (),
      demo_wrapper\<lparr>decoratedFns := [''fetch''],
        facade := (facade demo_wrapper)(''fetch'' \<mapsto> Decorable 1),
        decorators := [''fetch'' \<mapsto> [11]],
        hookRecs := (hookRecs demo_wrapper)(0 := \<lparr>pre = [], post = []\<rparr>),
        nextRec := 1\<rparr>)"
  by (simp add: discard_def addDecorator_def removeDecorator_def addHook_def
      removeHook_def makeDecorable_def unmakeDecorable_def is_function_member_def lookup_fn_def
      demo_fields Let_def)


theorem C10_registries_consistent_witness:
  "createDapi demo_definition [''hasOwnProperty'', ''valueOf''] = Inr demo_wrapper
   \<and> run_ops [AddHook Post ''fetch'' 20, AddDecorator ''fetch'' 11,
         RemoveDecorator ''double'' 11, CallRemover (HookRemover Post ''fetch'' 20)]
         demo_wrapper =
       (Inr (),
        demo_wrapper\<lparr>decoratedFns := [''fetch''],
          facade := (facade demo_wrapper)(''fetch'' \<mapsto> Decorable 1),
          decorators := [''fetch'' \<mapsto> [11]],
          hookRecs := (hookRecs demo_wrapper)(0 := \<lparr>pre = [], post = []\<rparr>),
          nextRec := 1\<rparr>)
   \<and> registries_consistent
       (demo_wrapper\<lparr>decoratedFns := [''fetch''],
          facade := (facade demo_wrapper)(''fetch'' \<mapsto> Decorable 1),
          decorators := [''fetch'' \<mapsto> [11]],
          hookRecs := (hookRecs demo_wrapper)(0 := \<lparr>pre = [], post = []\<rparr>),
          nextRec := 1\<rparr>)"
  using C10_registries_consistent [OF demo_created demo_ops_run] demo_created demo_ops_run
  by blast













lemma defn_makeDecorable [simp]: "defn (makeDecorable key w) = defn w"
  by (simp add: makeDecorable_def split: option.splits)

lemma defn_unmakeDecorable [simp]: "defn (unmakeDecorable key w) = defn w"
  by (simp add: unmakeDecorable_def)

lemma defn_addDecorator [simp]: "defn (snd (addDecorator key d w)) = defn w"
  by (simp add: addDecorator_def Let_def)

lemma defn_removeDecorator [simp]: "defn (removeDecorator key d w) = defn w"
  by (simp add: removeDecorator_def Let_def split: option.splits list.splits)

lemma defn_addHook [simp]: "defn (snd (addHook ph key h w)) = defn w"
  by (simp add: addHook_def Let_def split: option.splits)

lemma defn_removeHook [simp]: "defn (snd (removeHook ph key h w)) = defn w"
  by (simp add: removeHook_def Let_def split: option.splits)

lemma lookup_fn_defn: "defn w' = defn w \<Longrightarrow> lookup_fn w' = lookup_fn w"
  by (rule ext) (simp add: lookup_fn_def)




















lemma defn_run_remover [simp]: "defn (snd (run_remover r w)) = defn w"
  by (cases r) simp_all

lemma defn_run_removers [simp]: "defn (snd (run_removers rs w)) = defn w"
proof (induction rs arbitrary: w)
  case Nil
  then show ?case by simp
next
  case (Cons r rs)
  show ?case
    using Cons.IH [of "snd (run_remover r w)"] defn_run_remover [of r w]
    by (cases "run_remover r w") (auto split: sum.splits)
qed

lemma defn_decorateAll_loop [simp]: "defn (snd (decorateAll_loop d keys rs w)) = defn w"
proof (induction keys arbitrary: rs w)
  case Nil
  then show ?case by simp
next
  case (Cons key keys)
  show ?case
    using Cons.IH [of _ "snd (addDecorator key d w)"] defn_addDecorator [of key d w]
    by (cases "addDecorator key d w") (auto split: sum.splits)
qed

lemma defn_apply_op [simp]: "defn (snd (apply_op x w)) = defn w"
  by (cases x) (simp_all add: decorateAll_def)

lemma defn_run_ops [simp]: "defn (snd (run_ops xs w)) = defn w"
proof (induction xs arbitrary: w)
  case Nil
  then show ?case by simp
next
  case (Cons x xs)
  show ?case
    using Cons.IH [of "snd (apply_op x w)"] defn_apply_op [of x w]
    by (cases "apply_op x w") (auto split: sum.splits)
qed









lemma lookup_fn_removeDecorator [simp]:
  "lookup_fn (removeDecorator key d w) = lookup_fn w"
  by (rule lookup_fn_defn) simp

lemma lookup_fn_addDecorator [simp]:
  "lookup_fn (snd (addDecorator key d w)) = lookup_fn w"
  by (rule lookup_fn_defn) simp






















end
